theory Spec2Isabelle
  imports Main "HOL-Library.Sublist"
begin

section \<open>The reminder-timer subsystem of server.js\<close>

text \<open>
  The model follows \<^verbatim>\<open>src/server.js\<close>, lines 117-118 and 242-436: the two module-level
  Maps \<^verbatim>\<open>allReminders\<close> and \<^verbatim>\<open>activeReminders\<close>, the three route handlers on
  \<^verbatim>\<open>/api/reminders\<close>, and the callback given to \<^verbatim>\<open>setTimeout\<close>. Node runs all of them
  on one thread: a handler runs to its end, and the \<^verbatim>\<open>async\<close> callback runs to its first
  \<^verbatim>\<open>await\<close> and is resumed later, when the promise has settled. Each such run is one step of
  the model; \<^verbatim>\<open>console.log\<close> output is left out.
\<close>

subsection \<open>JavaScript values\<close>

text \<open>
  A field of the parsed JSON body: absent (\<^verbatim>\<open>undefined\<close>), \<^verbatim>\<open>null\<close>, a boolean, a number
  (JSON has no NaN; integers stand for the numbers), a string, or an object or array. A Map
  compares objects by reference, so an object is its reference (the number; one reference
  stands for one object) with the one thing the handlers ask of its content: whether
  converting it to a string returns (the boolean). The conversion throws a TypeError for an
  object such as \<^verbatim>\<open>{"toString": 1}\<close>, whose \<^verbatim>\<open>toString\<close> is not a function and whose
  \<^verbatim>\<open>valueOf\<close> returns the object.
\<close>

datatype jsval = JUndefined | JNull | JBool bool | JNum int | JStr string | JObj nat bool

text \<open>\<^verbatim>\<open>!v\<close> is \<open>\<not> truthy v\<close>.\<close>

fun truthy :: "jsval \<Rightarrow> bool" where
  "truthy JUndefined = False"
| "truthy JNull = False"
| "truthy (JBool b) = b"
| "truthy (JNum n) = (n \<noteq> 0)"
| "truthy (JStr s) = (s \<noteq> [])"
| "truthy (JObj a c) = True"

datatype js_error = TypeError

text \<open>
  \<^verbatim>\<open>${v}\<close> in a template literal converts \<open>v\<close> to a string; \<open>converts v\<close> says that the
  conversion returns, as it does for every value that is not an object. Otherwise it throws
  a TypeError.
\<close>

fun converts :: "jsval \<Rightarrow> bool" where
  "converts (JObj a c) = c"
| "converts v = True"

text \<open>
  \<^verbatim>\<open>v.startsWith(p)\<close>: only a string has the method. Reading the property of
  \<^verbatim>\<open>undefined\<close> or \<^verbatim>\<open>null\<close> throws a TypeError, and so does calling what is not a function
  on any other value.
\<close>

fun startsWith :: "jsval \<Rightarrow> string \<Rightarrow> js_error + bool" where
  "startsWith (JStr s) p = Inr (take (length p) s = p)"
| "startsWith v p = Inl TypeError"

subsection \<open>A JavaScript Map\<close>

text \<open>
  A Map iterates in insertion order; \<^verbatim>\<open>set\<close> on a key that is present replaces the value
  where it stands, and on a new key appends.
\<close>

type_synonym ('k, 'v) jsmap = "('k \<times> 'v) list"

definition jsmap_get :: "('k, 'v) jsmap \<Rightarrow> 'k \<Rightarrow> 'v option" where
  "jsmap_get m k = map_of m k"

definition jsmap_has :: "('k, 'v) jsmap \<Rightarrow> 'k \<Rightarrow> bool" where
  "jsmap_has m k = (jsmap_get m k \<noteq> None)"

fun jsmap_set :: "('k, 'v) jsmap \<Rightarrow> 'k \<Rightarrow> 'v \<Rightarrow> ('k, 'v) jsmap" where
  "jsmap_set [] k v = [(k, v)]"
| "jsmap_set (p # m) k v = (if fst p = k then (k, v) # m else p # jsmap_set m k v)"

definition jsmap_delete :: "('k, 'v) jsmap \<Rightarrow> 'k \<Rightarrow> ('k, 'v) jsmap" where
  "jsmap_delete m k = filter (\<lambda>p. fst p \<noteq> k) m"

subsection \<open>The data\<close>

datatype status = Active | Taken

text \<open>
  A value of \<^verbatim>\<open>allReminders\<close>. The ISO strings of \<^verbatim>\<open>createdAt\<close> and \<^verbatim>\<open>takenAt\<close> are kept
  as the instant they print, in milliseconds; \<^verbatim>\<open>takenAt\<close> is absent until it is assigned.
\<close>

record reminder =
  medicineName :: jsval
  guardianPhone :: jsval
  time :: jsval
  status :: status
  createdAt :: nat
  takenAt :: "nat option"

text \<open>A value of \<^verbatim>\<open>activeReminders\<close>; \<open>timer\<close> is the handle \<^verbatim>\<open>setTimeout\<close> returned.\<close>

record armed =
  timer :: nat
  armedMedicineName :: jsval
  armedGuardianPhone :: jsval
  armedTime :: jsval
  startTime :: nat
  scheduledTime :: nat
  timerDuration :: nat

text \<open>
  One call of \<^verbatim>\<open>setTimeout\<close>: the object \<^verbatim>\<open>timerRef\<close> with its flag, the variables the
  callback closes over, and the instant from which the event loop may run it.
\<close>

record timerRef =
  triggered :: bool
  forReminderId :: jsval
  forMedicineName :: jsval
  forGuardianPhone :: jsval
  forTime :: jsval
  due :: nat

text \<open>The arguments of one \<^verbatim>\<open>twilioClient.messages.create\<close>; the body is built from two.\<close>

record sms =
  smsTo :: jsval
  smsMedicineName :: jsval
  smsTime :: jsval

text \<open>
  What one run of the callback's \<^verbatim>\<open>try\<close> block did: threw because there is no client,
  threw while it built the body of the message (the medicine or the time does not convert
  to a string), or called \<^verbatim>\<open>messages.create\<close>.
\<close>

datatype attempt = NotInitialized | BodyThrew | Create sms

text \<open>
  The process: the clock, the two Maps, every \<^verbatim>\<open>timerRef\<close> made so far (a handle is the
  position in \<open>timers\<close>), the handles the event loop still holds (\<open>pending\<close>), the callbacks
  suspended at their \<^verbatim>\<open>await\<close> (\<open>awaiting\<close>), and the attempts made, each with the handle
  of the timer whose callback made it.
\<close>

record state =
  clock :: nat
  allReminders :: "(jsval, reminder) jsmap"
  activeReminders :: "(jsval, armed) jsmap"
  timers :: "timerRef list"
  pending :: "nat list"
  awaiting :: "nat list"
  attempts :: "(nat \<times> attempt) list"

text \<open>
  What is fixed when the process starts: whether \<^verbatim>\<open>twilioClient\<close> was initialised (it stays
  \<^verbatim>\<open>null\<close> without credentials) and whether \<^verbatim>\<open>NODE_ENV\<close> is \<^verbatim>\<open>development\<close>.
\<close>

record env =
  twilioClient :: bool
  development :: bool

definition TIMER_DURATION :: "env \<Rightarrow> nat" where
  "TIMER_DURATION e = (if development e then 10000 else 5 * 60 * 1000)"

definition init :: "nat \<Rightarrow> state" where
  "init t = \<lparr>clock = t, allReminders = [], activeReminders = [], timers = [],
     pending = [], awaiting = [], attempts = []\<rparr>"

subsection \<open>Replies\<close>

record details =
  detailsReminderId :: jsval
  detailsStartTime :: nat
  scheduledSMSTime :: nat

record row =
  rowId :: jsval
  rowMedicineName :: jsval
  rowGuardianPhone :: jsval
  rowTime :: jsval
  rowStatus :: status
  rowCreatedAt :: nat
  rowTakenAt :: "nat option"

datatype payload =
    MissingReminderId
  | InvalidPhoneFormat
  | TimerSet details
  | InvalidReminderId
  | NotFound string
  | MarkedTaken string status "nat option"
  | Rows "row list"

text \<open>
  A handler answers with a status and a JSON payload, or throws; Express answers an
  exception thrown by a handler with a 500, and what the handler wrote before stays written.
\<close>

datatype reply = Reply nat payload | Uncaught js_error

subsection \<open>The timers of the event loop\<close>

text \<open>\<^verbatim>\<open>clearTimeout(h)\<close>: the event loop drops the handle; a handle it no longer holds is ignored.\<close>

definition clearTimeout :: "nat \<Rightarrow> state \<Rightarrow> state" where
  "clearTimeout h s = s\<lparr>pending := removeAll h (pending s)\<rparr>"

text \<open>\<^verbatim>\<open>setTimeout\<close>: a new handle, held by the event loop.\<close>

definition setTimeout :: "timerRef \<Rightarrow> state \<Rightarrow> nat \<times> state" where
  "setTimeout r s =
     (length (timers s), s\<lparr>timers := timers s @ [r], pending := pending s @ [length (timers s)]\<rparr>)"

subsection \<open>POST /api/reminders\<close>

record body =
  reqReminderId :: jsval
  reqMedicineName :: jsval
  reqGuardianPhone :: jsval
  reqTime :: jsval

text \<open>The three object literals of the handler, at the instant \<open>t\<close> the clock shows.\<close>

definition new_reminder :: "body \<Rightarrow> nat \<Rightarrow> reminder" where
  "new_reminder b t =
     \<lparr>medicineName = reqMedicineName b, guardianPhone = reqGuardianPhone b,
      time = reqTime b, status = Active, createdAt = t, takenAt = None\<rparr>"

definition new_timerRef :: "env \<Rightarrow> body \<Rightarrow> nat \<Rightarrow> timerRef" where
  "new_timerRef e b t =
     \<lparr>triggered = False, forReminderId = reqReminderId b,
      forMedicineName = reqMedicineName b, forGuardianPhone = reqGuardianPhone b,
      forTime = reqTime b, due = t + TIMER_DURATION e\<rparr>"

definition new_armed :: "env \<Rightarrow> body \<Rightarrow> nat \<Rightarrow> nat \<Rightarrow> armed" where
  "new_armed e b t h =
     \<lparr>timer = h, armedMedicineName = reqMedicineName b,
      armedGuardianPhone = reqGuardianPhone b, armedTime = reqTime b,
      startTime = t, scheduledTime = t + TIMER_DURATION e,
      timerDuration = TIMER_DURATION e\<rparr>"

text \<open>
  The handler, in the order of the source: the id is checked, the record is stored, the
  phone is checked, a timer registered under the id is cleared, the id is put into the
  text of a log line (line 288, which throws when the id does not convert to a string), the
  new timer is set and registered.
\<close>

definition post_reminders :: "env \<Rightarrow> body \<Rightarrow> state \<Rightarrow> reply \<times> state" where
  "post_reminders e b s =
     (if \<not> truthy (reqReminderId b) then (Reply 400 MissingReminderId, s)
      else
        let s1 = s\<lparr>allReminders :=
                     jsmap_set (allReminders s) (reqReminderId b) (new_reminder b (clock s))\<rparr>
        in case startsWith (reqGuardianPhone b) ''+'' of
             Inl err \<Rightarrow> (Uncaught err, s1)
           | Inr False \<Rightarrow> (Reply 400 InvalidPhoneFormat, s1)
           | Inr True \<Rightarrow>
               let s2 = (case jsmap_get (activeReminders s1) (reqReminderId b) of
                           None \<Rightarrow> s1
                         | Some a \<Rightarrow> clearTimeout (timer a) s1)
               in if \<not> converts (reqReminderId b) then (Uncaught TypeError, s2)
                  else
                    let (h, s3) = setTimeout (new_timerRef e b (clock s)) s2;
                        s4 = s3\<lparr>activeReminders :=
                                 jsmap_set (activeReminders s3) (reqReminderId b)
                                   (new_armed e b (clock s) h)\<rparr>
                    in (Reply 200 (TimerSet \<lparr>detailsReminderId = reqReminderId b,
                          detailsStartTime = clock s,
                          scheduledSMSTime = clock s + TIMER_DURATION e\<rparr>), s4))"

subsection \<open>The callback of a timer\<close>

text \<open>The \<^verbatim>\<open>finally\<close> block: \<^verbatim>\<open>activeReminders.delete(reminderId)\<close>, by the id alone.\<close>

definition finally_block :: "nat \<Rightarrow> state \<Rightarrow> state" where
  "finally_block h s =
     s\<lparr>activeReminders := jsmap_delete (activeReminders s) (forReminderId (timers s ! h))\<rparr>"

text \<open>
  The callback of timer \<open>h\<close>, from its start to its return or to its \<^verbatim>\<open>await\<close>. Without a
  client the \<^verbatim>\<open>try\<close> block throws at once, and \<^verbatim>\<open>catch\<close> and \<^verbatim>\<open>finally\<close> run in the same
  step. With a client, the argument of \<^verbatim>\<open>messages.create\<close> is built first: its body is a
  template literal of the medicine and the time (lines 317-321), and when one of them does
  not convert to a string the \<^verbatim>\<open>try\<close> block throws before the call, with \<^verbatim>\<open>catch\<close> and
  \<^verbatim>\<open>finally\<close> again in the same step. Otherwise \<^verbatim>\<open>messages.create\<close> is called and the
  callback is suspended.
\<close>

definition callback :: "env \<Rightarrow> nat \<Rightarrow> state \<Rightarrow> state" where
  "callback e h s =
     (let r = timers s ! h in
      if triggered r then s
      else
        let s1 = s\<lparr>timers := (timers s)[h := r\<lparr>triggered := True\<rparr>]\<rparr> in
        if \<not> twilioClient e
        then finally_block h (s1\<lparr>attempts := attempts s1 @ [(h, NotInitialized)]\<rparr>)
        else if \<not> (converts (forMedicineName r) \<and> converts (forTime r))
        then finally_block h (s1\<lparr>attempts := attempts s1 @ [(h, BodyThrew)]\<rparr>)
        else s1\<lparr>attempts := attempts s1 @
                   [(h, Create \<lparr>smsTo = forGuardianPhone r, smsMedicineName = forMedicineName r,
                                smsTime = forTime r\<rparr>)],
                awaiting := awaiting s1 @ [h]\<rparr>)"

text \<open>
  The rest of the callback, once the promise of \<^verbatim>\<open>messages.create\<close> has settled: it
  resolved (\<open>ok\<close>) or was rejected, which \<^verbatim>\<open>catch\<close> only logs; then \<^verbatim>\<open>finally\<close>.
\<close>

definition resume :: "nat \<Rightarrow> bool \<Rightarrow> state \<Rightarrow> state" where
  "resume h ok s = finally_block h (s\<lparr>awaiting := remove1 h (awaiting s)\<rparr>)"

subsection \<open>POST /api/reminders/:reminderId/taken\<close>

text \<open>The id is a path segment, so it is a string.\<close>

definition post_taken :: "string \<Rightarrow> state \<Rightarrow> reply \<times> state" where
  "post_taken rid s =
     (if \<not> truthy (JStr rid) then (Reply 400 InvalidReminderId, s)
      else case jsmap_get (allReminders s) (JStr rid) of
          None \<Rightarrow> (Reply 404 (NotFound rid), s)
        | Some d \<Rightarrow>
            let d' = d\<lparr>status := Taken, takenAt := Some (clock s)\<rparr>;
                s1 = s\<lparr>allReminders := jsmap_set (allReminders s) (JStr rid) d'\<rparr>;
                s2 = (case jsmap_get (activeReminders s1) (JStr rid) of
                        None \<Rightarrow> s1
                      | Some a \<Rightarrow>
                          (clearTimeout (timer a) s1)
                            \<lparr>activeReminders := jsmap_delete (activeReminders s1) (JStr rid)\<rparr>)
            in (Reply 200 (MarkedTaken rid Taken (takenAt d')), s2))"

subsection \<open>GET /api/reminders\<close>

definition to_row :: "jsval \<times> reminder \<Rightarrow> row" where
  "to_row p = \<lparr>rowId = fst p, rowMedicineName = medicineName (snd p),
     rowGuardianPhone = guardianPhone (snd p), rowTime = time (snd p),
     rowStatus = status (snd p), rowCreatedAt = createdAt (snd p),
     rowTakenAt = takenAt (snd p)\<rparr>"

definition get_reminders :: "state \<Rightarrow> reply \<times> state" where
  "get_reminders s = (Reply 200 (Rows (map to_row (allReminders s))), s)"

subsection \<open>The event loop\<close>

text \<open>
  What the event loop runs next, each after some milliseconds: a request, the callback of
  a timer it holds whose delay has passed, or the rest of a callback whose promise has
  settled. An event that cannot happen (a handle not held, a delay not passed, a callback
  not suspended) only lets the time pass.
\<close>

datatype event =
    PostReminders nat body
  | PostTaken nat string
  | GetReminders nat
  | TimerFires nat nat
  | SmsSettles nat nat bool

definition tick :: "nat \<Rightarrow> state \<Rightarrow> state" where
  "tick dt s = s\<lparr>clock := clock s + dt\<rparr>"

definition fire :: "env \<Rightarrow> nat \<Rightarrow> state \<Rightarrow> state" where
  "fire e h s =
     (if h \<in> set (pending s) \<and> h < length (timers s) \<and> due (timers s ! h) \<le> clock s
      then callback e h (s\<lparr>pending := removeAll h (pending s)\<rparr>)
      else s)"

definition settle :: "nat \<Rightarrow> bool \<Rightarrow> state \<Rightarrow> state" where
  "settle h ok s =
     (if h \<in> set (awaiting s) \<and> h < length (timers s) then resume h ok s else s)"

fun exec :: "env \<Rightarrow> state \<Rightarrow> event \<Rightarrow> state" where
  "exec e s (PostReminders dt b) = snd (post_reminders e b (tick dt s))"
| "exec e s (PostTaken dt rid) = snd (post_taken rid (tick dt s))"
| "exec e s (GetReminders dt) = snd (get_reminders (tick dt s))"
| "exec e s (TimerFires dt h) = fire e h (tick dt s)"
| "exec e s (SmsSettles dt h ok) = settle h ok (tick dt s)"

definition run :: "env \<Rightarrow> state \<Rightarrow> event list \<Rightarrow> state" where
  "run e s evs = foldl (exec e) s evs"

subsection \<open>Observations and sample inputs\<close>

text \<open>The attempts made by the callback of timer \<open>h\<close>.\<close>

definition attempts_by :: "nat \<Rightarrow> state \<Rightarrow> (nat \<times> attempt) list" where
  "attempts_by h s = filter (\<lambda>p. fst p = h) (attempts s)"

text \<open>The timers the event loop holds whose callback is for the id \<open>k\<close>.\<close>

definition pending_for :: "jsval \<Rightarrow> state \<Rightarrow> nat list" where
  "pending_for k s = filter (\<lambda>h. forReminderId (timers s ! h) = k) (pending s)"

text \<open>The status and \<^verbatim>\<open>takenAt\<close> the Store holds for the id \<open>k\<close>.\<close>

definition status_of :: "state \<Rightarrow> jsval \<Rightarrow> status option" where
  "status_of s k = map_option status (jsmap_get (allReminders s) k)"

definition takenAt_of :: "state \<Rightarrow> jsval \<Rightarrow> nat option option" where
  "takenAt_of s k = map_option takenAt (jsmap_get (allReminders s) k)"

text \<open>The event is a POST /api/reminders whose body carries the id \<open>k\<close>.\<close>

fun creates :: "jsval \<Rightarrow> event \<Rightarrow> bool" where
  "creates k (PostReminders dt b) = (reqReminderId b = k)"
| "creates k ev = False"

text \<open>
  What the timers keep true: a handle the event loop holds, and the handle of every
  attempt, is one that \<^verbatim>\<open>setTimeout\<close> gave out; the flag of a held timer is not set; and a
  timer has made one attempt if its flag is set and none otherwise.
\<close>

definition timers_ok :: "state \<Rightarrow> bool" where
  "timers_ok s =
     ((\<forall>h \<in> set (pending s). h < length (timers s) \<and> \<not> triggered (timers s ! h)) \<and>
      (\<forall>p \<in> set (attempts s). fst p < length (timers s)) \<and>
      (\<forall>h < length (timers s).
         length (attempts_by h s) = (if triggered (timers s ! h) then 1 else 0)))"

text \<open>Every id registered in \<^verbatim>\<open>activeReminders\<close> has an active record in \<^verbatim>\<open>allReminders\<close>.\<close>

definition armed_active :: "state \<Rightarrow> bool" where
  "armed_active s = (\<forall>k. jsmap_has (activeReminders s) k \<longrightarrow> status_of s k = Some Active)"

text \<open>
  No callback is suspended, the event loop holds no handle twice, and every timer it holds
  is the one registered in \<^verbatim>\<open>activeReminders\<close> under the id of its callback.
\<close>

definition held_registered :: "state \<Rightarrow> bool" where
  "held_registered s =
     (distinct (pending s) \<and> awaiting s = [] \<and>
      (\<forall>h \<in> set (pending s). h < length (timers s) \<and>
         map_option timer (jsmap_get (activeReminders s) (forReminderId (timers s ! h))) = Some h))"

text \<open>A process with a Twilio client, in development (a delay of 10 seconds).\<close>

definition with_client :: env where
  "with_client = \<lparr>twilioClient = True, development = True\<rparr>"

definition request :: "string \<Rightarrow> string \<Rightarrow> body" where
  "request i p =
     \<lparr>reqReminderId = JStr i, reqMedicineName = JStr ''aspirin'',
      reqGuardianPhone = JStr p, reqTime = JStr ''08:00''\<rparr>"

text \<open>A body whose \<^verbatim>\<open>medicineName\<close> is \<^verbatim>\<open>{"toString": 1}\<close>.\<close>

definition request_odd_medicine :: "string \<Rightarrow> string \<Rightarrow> body" where
  "request_odd_medicine i p =
     \<lparr>reqReminderId = JStr i, reqMedicineName = JObj 0 False,
      reqGuardianPhone = JStr p, reqTime = JStr ''08:00''\<rparr>"

text \<open>A body with no \<^verbatim>\<open>guardianPhone\<close>.\<close>

definition request_no_phone :: "string \<Rightarrow> body" where
  "request_no_phone i =
     \<lparr>reqReminderId = JStr i, reqMedicineName = JStr ''aspirin'',
      reqGuardianPhone = JUndefined, reqTime = JStr ''08:00''\<rparr>"

section \<open>Properties\<close>

subsection \<open>The Map operations\<close>

lemma jsmap_get_set:
  "jsmap_get (jsmap_set m k v) k' = (if k' = k then Some v else jsmap_get m k')"
  by (induction m) (auto simp: jsmap_get_def)

lemma jsmap_get_delete:
  "jsmap_get (jsmap_delete m k) k' = (if k' = k then None else jsmap_get m k')"
  by (induction m) (auto simp: jsmap_get_def jsmap_delete_def)

lemma jsmap_delete_absent: "jsmap_get m k = None \<Longrightarrow> jsmap_delete m k = m"
  by (induction m) (auto simp: jsmap_get_def jsmap_delete_def split: if_splits)

lemma keys_jsmap_set:
  "map fst (jsmap_set m k v) =
     (if jsmap_get m k = None then map fst m @ [k] else map fst m)"
  by (induction m) (auto simp: jsmap_get_def)

lemma jsmap_set_absent: "jsmap_get m k = None \<Longrightarrow> jsmap_set m k v = m @ [(k, v)]"
  by (induction m) (auto simp: jsmap_get_def split: if_splits)

subsection \<open>The handlers, case by case\<close>

lemma post_reminders_falsy:
  "\<not> truthy (reqReminderId b) \<Longrightarrow> post_reminders e b s = (Reply 400 MissingReminderId, s)"
  by (simp add: post_reminders_def)

lemma post_reminders_throws:
  "truthy (reqReminderId b) \<Longrightarrow> startsWith (reqGuardianPhone b) ''+'' = Inl err \<Longrightarrow>
   post_reminders e b s =
     (Uncaught err,
      s\<lparr>allReminders :=
          jsmap_set (allReminders s) (reqReminderId b) (new_reminder b (clock s))\<rparr>)"
  by (simp add: post_reminders_def)

lemma post_reminders_invalid:
  "truthy (reqReminderId b) \<Longrightarrow> startsWith (reqGuardianPhone b) ''+'' = Inr False \<Longrightarrow>
   post_reminders e b s =
     (Reply 400 InvalidPhoneFormat,
      s\<lparr>allReminders :=
          jsmap_set (allReminders s) (reqReminderId b) (new_reminder b (clock s))\<rparr>)"
  by (simp add: post_reminders_def)

lemma post_reminders_unconvertible:
  "truthy (reqReminderId b) \<Longrightarrow> startsWith (reqGuardianPhone b) ''+'' = Inr True \<Longrightarrow>
   \<not> converts (reqReminderId b) \<Longrightarrow>
   post_reminders e b s =
     (Uncaught TypeError,
      s\<lparr>allReminders :=
          jsmap_set (allReminders s) (reqReminderId b) (new_reminder b (clock s)),
        pending :=
          (case jsmap_get (activeReminders s) (reqReminderId b) of
             None \<Rightarrow> pending s
           | Some a \<Rightarrow> removeAll (timer a) (pending s))\<rparr>)"
  by (simp add: post_reminders_def clearTimeout_def split: option.splits)

lemma post_reminders_ok:
  "truthy (reqReminderId b) \<Longrightarrow> startsWith (reqGuardianPhone b) ''+'' = Inr True \<Longrightarrow>
   converts (reqReminderId b) \<Longrightarrow>
   post_reminders e b s =
     (Reply 200 (TimerSet \<lparr>detailsReminderId = reqReminderId b,
                  detailsStartTime = clock s,
                  scheduledSMSTime = clock s + TIMER_DURATION e\<rparr>),
      s\<lparr>allReminders :=
          jsmap_set (allReminders s) (reqReminderId b) (new_reminder b (clock s)),
        activeReminders :=
          jsmap_set (activeReminders s) (reqReminderId b)
            (new_armed e b (clock s) (length (timers s))),
        timers := timers s @ [new_timerRef e b (clock s)],
        pending :=
          (case jsmap_get (activeReminders s) (reqReminderId b) of
             None \<Rightarrow> pending s
           | Some a \<Rightarrow> removeAll (timer a) (pending s)) @ [length (timers s)]\<rparr>)"
  by (simp add: post_reminders_def setTimeout_def clearTimeout_def split: option.splits)

lemma post_taken_empty: "post_taken [] s = (Reply 400 InvalidReminderId, s)"
  by (simp add: post_taken_def)

lemma post_taken_missing:
  "rid \<noteq> [] \<Longrightarrow> jsmap_get (allReminders s) (JStr rid) = None \<Longrightarrow>
   post_taken rid s = (Reply 404 (NotFound rid), s)"
  by (simp add: post_taken_def)

lemma post_taken_found:
  "rid \<noteq> [] \<Longrightarrow> jsmap_get (allReminders s) (JStr rid) = Some d \<Longrightarrow>
   post_taken rid s =
     (Reply 200 (MarkedTaken rid Taken (Some (clock s))),
      s\<lparr>allReminders :=
          jsmap_set (allReminders s) (JStr rid) (d\<lparr>status := Taken, takenAt := Some (clock s)\<rparr>),
        activeReminders := jsmap_delete (activeReminders s) (JStr rid),
        pending :=
          (case jsmap_get (activeReminders s) (JStr rid) of
             None \<Rightarrow> pending s
           | Some a \<Rightarrow> removeAll (timer a) (pending s))\<rparr>)"
  by (cases "jsmap_get (activeReminders s) (JStr rid)")
     (simp_all add: post_taken_def clearTimeout_def jsmap_delete_absent)

lemma callback_triggered: "triggered (timers s ! h) \<Longrightarrow> callback e h s = s"
  by (simp add: callback_def)

lemma callback_no_client:
  "\<not> triggered (timers s ! h) \<Longrightarrow> \<not> twilioClient e \<Longrightarrow>
   callback e h s =
     s\<lparr>timers := (timers s)[h := (timers s ! h)\<lparr>triggered := True\<rparr>],
       attempts := attempts s @ [(h, NotInitialized)],
       activeReminders := jsmap_delete (activeReminders s) (forReminderId (timers s ! h))\<rparr>"
  by (cases "h < length (timers s)")
     (simp_all add: callback_def finally_block_def Let_def list_update_beyond)

lemma callback_body_throws:
  "\<not> triggered (timers s ! h) \<Longrightarrow> twilioClient e \<Longrightarrow>
   \<not> (converts (forMedicineName (timers s ! h)) \<and> converts (forTime (timers s ! h))) \<Longrightarrow>
   callback e h s =
     s\<lparr>timers := (timers s)[h := (timers s ! h)\<lparr>triggered := True\<rparr>],
       attempts := attempts s @ [(h, BodyThrew)],
       activeReminders := jsmap_delete (activeReminders s) (forReminderId (timers s ! h))\<rparr>"
  by (cases "h < length (timers s)")
     (auto simp add: callback_def finally_block_def Let_def list_update_beyond)

lemma callback_client:
  "\<not> triggered (timers s ! h) \<Longrightarrow> twilioClient e \<Longrightarrow>
   converts (forMedicineName (timers s ! h)) \<Longrightarrow> converts (forTime (timers s ! h)) \<Longrightarrow>
   callback e h s =
     s\<lparr>timers := (timers s)[h := (timers s ! h)\<lparr>triggered := True\<rparr>],
       attempts := attempts s @
         [(h, Create \<lparr>smsTo = forGuardianPhone (timers s ! h),
                      smsMedicineName = forMedicineName (timers s ! h),
                      smsTime = forTime (timers s ! h)\<rparr>)],
       awaiting := awaiting s @ [h]\<rparr>"
  by (simp add: callback_def Let_def)

lemma resume_eq:
  "resume h ok s =
     s\<lparr>awaiting := remove1 h (awaiting s),
       activeReminders := jsmap_delete (activeReminders s) (forReminderId (timers s ! h))\<rparr>"
  by (simp add: resume_def finally_block_def)

text \<open>The facts that evaluate a run on given events.\<close>

lemmas run_simps =
  run_def tick_def fire_def settle_def init_def
  with_client_def request_def request_odd_medicine_def request_no_phone_def
  post_reminders_falsy post_reminders_throws post_reminders_invalid
  post_reminders_unconvertible post_reminders_ok
  post_taken_empty post_taken_missing post_taken_found
  callback_triggered callback_no_client callback_body_throws callback_client resume_eq
  jsmap_get_def jsmap_delete_def new_reminder_def new_armed_def new_timerRef_def
  TIMER_DURATION_def


lemma tick_fields:
  "clock (tick dt s) = clock s + dt"
  "allReminders (tick dt s) = allReminders s"
  "activeReminders (tick dt s) = activeReminders s"
  "timers (tick dt s) = timers s"
  "pending (tick dt s) = pending s"
  "awaiting (tick dt s) = awaiting s"
  "attempts (tick dt s) = attempts s"
  by (simp_all add: tick_def)

lemma run_Nil: "run e s [] = s"
  by (simp add: run_def)

lemma run_Cons: "run e s (ev # evs) = run e (exec e s ev) evs"
  by (simp add: run_def)

lemma run_snoc: "run e s (evs @ [ev]) = exec e (run e s evs) ev"
  by (simp add: run_def)

lemma run_append: "run e s (evs @ evs') = run e (run e s evs) evs'"
  by (simp add: run_def)

text \<open>The branches of the two POST handlers.\<close>

lemma post_reminders_cases:
  obtains (falsy) "\<not> truthy (reqReminderId b)"
  | (throws) err where "truthy (reqReminderId b)"
      "startsWith (reqGuardianPhone b) ''+'' = Inl err"
  | (invalid) "truthy (reqReminderId b)" "startsWith (reqGuardianPhone b) ''+'' = Inr False"
  | (unconvertible) "truthy (reqReminderId b)"
      "startsWith (reqGuardianPhone b) ''+'' = Inr True" "\<not> converts (reqReminderId b)"
  | (ok) "truthy (reqReminderId b)" "startsWith (reqGuardianPhone b) ''+'' = Inr True"
      "converts (reqReminderId b)"
  by (cases "startsWith (reqGuardianPhone b) ''+''") auto

lemma post_taken_cases:
  obtains (empty) "rid = []"
  | (missing) "rid \<noteq> []" "jsmap_get (allReminders s) (JStr rid) = None"
  | (found) d where "rid \<noteq> []" "jsmap_get (allReminders s) (JStr rid) = Some d"
  by (cases "jsmap_get (allReminders s) (JStr rid)") auto

subsection \<open>What each step does to the Store\<close>

lemma allReminders_callback: "allReminders (callback e h s) = allReminders s"
  by (simp add: callback_def finally_block_def Let_def)

lemma allReminders_fire: "allReminders (fire e h s) = allReminders s"
  by (simp add: fire_def allReminders_callback)

lemma allReminders_settle: "allReminders (settle h ok s) = allReminders s"
  by (simp add: settle_def resume_eq)

lemma status_of_tick: "status_of (tick dt s) k = status_of s k"
  by (simp add: status_of_def tick_fields)

lemma status_of_post_reminders:
  "status_of (snd (post_reminders e b s)) k =
     (if truthy (reqReminderId b) \<and> k = reqReminderId b then Some Active else status_of s k)"
  by (rule post_reminders_cases[where b = b])
     (simp_all add: post_reminders_falsy post_reminders_throws post_reminders_invalid
        post_reminders_unconvertible post_reminders_ok status_of_def jsmap_get_set new_reminder_def)

lemma status_of_post_taken:
  "status_of (snd (post_taken rid s)) k =
     (if rid \<noteq> [] \<and> k = JStr rid \<and> status_of s k \<noteq> None then Some Taken
      else status_of s k)"
  by (rule post_taken_cases[where rid = rid and s = s])
     (auto simp add: post_taken_empty post_taken_missing post_taken_found status_of_def
        jsmap_get_set)

lemma status_of_exec:
  "status_of (exec e s ev) k =
     (case ev of
        PostReminders dt b \<Rightarrow>
          if truthy (reqReminderId b) \<and> k = reqReminderId b then Some Active
          else status_of s k
      | PostTaken dt rid \<Rightarrow>
          if rid \<noteq> [] \<and> k = JStr rid \<and> status_of s k \<noteq> None then Some Taken
          else status_of s k
      | _ \<Rightarrow> status_of s k)"
  by (cases ev)
     (simp_all add: status_of_post_reminders status_of_post_taken status_of_tick
        get_reminders_def,
      simp_all add: status_of_def allReminders_fire allReminders_settle tick_fields)

lemma taken_kept_exec:
  "status_of s k = Some Taken \<Longrightarrow> \<not> creates k ev \<Longrightarrow> status_of (exec e s ev) k = Some Taken"
  unfolding status_of_exec by (cases ev) auto

subsection \<open>What each step does to the registered timers\<close>

lemma active_post_reminders:
  "jsmap_get (activeReminders (snd (post_reminders e b s))) k =
     (if truthy (reqReminderId b) \<and> startsWith (reqGuardianPhone b) ''+'' = Inr True
         \<and> converts (reqReminderId b) \<and> k = reqReminderId b
      then Some (new_armed e b (clock s) (length (timers s)))
      else jsmap_get (activeReminders s) k)"
  by (rule post_reminders_cases[where b = b])
     (simp_all add: post_reminders_falsy post_reminders_throws post_reminders_invalid
        post_reminders_unconvertible post_reminders_ok jsmap_get_set)

lemma active_post_taken:
  "jsmap_get (activeReminders (snd (post_taken rid s))) k =
     (if rid \<noteq> [] \<and> k = JStr rid \<and> status_of s k \<noteq> None then None
      else jsmap_get (activeReminders s) k)"
  by (rule post_taken_cases[where rid = rid and s = s])
     (auto simp add: post_taken_empty post_taken_missing post_taken_found status_of_def
        jsmap_get_delete)

lemma active_callback:
  "jsmap_get (activeReminders (callback e h s)) k = None \<or>
   jsmap_get (activeReminders (callback e h s)) k = jsmap_get (activeReminders s) k"
  by (simp add: callback_def finally_block_def Let_def jsmap_get_delete)

lemma active_fire:
  "jsmap_get (activeReminders (fire e h s)) k = None \<or>
   jsmap_get (activeReminders (fire e h s)) k = jsmap_get (activeReminders s) k"
  using active_callback[of e h "s\<lparr>pending := removeAll h (pending s)\<rparr>" k]
  by (simp add: fire_def)

lemma active_settle:
  "jsmap_get (activeReminders (settle h ok s)) k = None \<or>
   jsmap_get (activeReminders (settle h ok s)) k = jsmap_get (activeReminders s) k"
  by (simp add: settle_def resume_eq jsmap_get_delete)

lemma armed_active_exec: "armed_active s \<Longrightarrow> armed_active (exec e s ev)"
proof (cases ev)
  case (PostReminders dt b)
  assume "armed_active s"
  then show ?thesis unfolding armed_active_def jsmap_has_def PostReminders
    by (auto simp: active_post_reminders status_of_post_reminders status_of_tick tick_fields
          split: if_splits)
next
  case (PostTaken dt rid)
  assume "armed_active s"
  then show ?thesis unfolding armed_active_def jsmap_has_def PostTaken
    by (auto simp: active_post_taken status_of_post_taken status_of_tick tick_fields
          split: if_splits)
next
  case (GetReminders dt)
  assume "armed_active s"
  then show ?thesis unfolding armed_active_def jsmap_has_def GetReminders
    by (simp add: get_reminders_def status_of_def tick_fields)
next
  case (TimerFires dt h)
  assume a: "armed_active s"
  show ?thesis unfolding armed_active_def jsmap_has_def
  proof (intro allI impI)
    fix k assume "jsmap_get (activeReminders (exec e s ev)) k \<noteq> None"
    with active_fire[of e h "tick dt s" k] have "jsmap_get (activeReminders s) k \<noteq> None"
      by (auto simp: TimerFires tick_fields)
    with a have "status_of s k = Some Active"
      by (simp add: armed_active_def jsmap_has_def)
    then show "status_of (exec e s ev) k = Some Active"
      by (simp add: TimerFires status_of_def allReminders_fire tick_fields)
  qed
next
  case (SmsSettles dt h ok)
  assume a: "armed_active s"
  show ?thesis unfolding armed_active_def jsmap_has_def
  proof (intro allI impI)
    fix k assume "jsmap_get (activeReminders (exec e s ev)) k \<noteq> None"
    with active_settle[of h ok "tick dt s" k] have "jsmap_get (activeReminders s) k \<noteq> None"
      by (auto simp: SmsSettles tick_fields)
    with a have "status_of s k = Some Active"
      by (simp add: armed_active_def jsmap_has_def)
    then show "status_of (exec e s ev) k = Some Active"
      by (simp add: SmsSettles status_of_def allReminders_settle tick_fields)
  qed
qed

lemma armed_active_run: "armed_active s \<Longrightarrow> armed_active (run e s evs)"
  by (induction evs arbitrary: s) (simp_all add: run_Nil run_Cons armed_active_exec)

lemma armed_active_init: "armed_active (init t)"
  by (simp add: armed_active_def init_def jsmap_has_def jsmap_get_def)

section \<open>The claims\<close>

subsection \<open>C3: a second markTaken\<close>

text \<open>
  C3 says that a second POST .../taken on a record that is already taken succeeds, leaves
  \<^verbatim>\<open>takenAt\<close> as the first call set it, and never moves the record back to active. The
  handler assigns \<^verbatim>\<open>takenAt\<close> on every call (line 403), with no test of the status. On the
  run below the first call, at 5000 ms, records 5000, and the second, 2000 ms later,
  replaces it by 7000.
\<close>

theorem second_markTaken_changes_takenAt:
  "takenAt_of (run with_client (init 0)
      [PostReminders 0 (request ''r1'' ''+15551234567''), PostTaken 5000 ''r1''])
      (JStr ''r1'') = Some (Some 5000) \<and>
   takenAt_of (run with_client (init 0)
      [PostReminders 0 (request ''r1'' ''+15551234567''), PostTaken 5000 ''r1'',
       PostTaken 2000 ''r1''])
      (JStr ''r1'') = Some (Some 7000)"
  by (simp add: run_simps takenAt_of_def)

text \<open>
  C3 as amended: on a record that is already taken the call answers 200 with status taken,
  the record stays taken with every other field as it was, and \<^verbatim>\<open>takenAt\<close> becomes the
  time of this call.
\<close>

theorem markTaken_again_overwrites_takenAt:
  assumes "rid \<noteq> []"
    and "jsmap_get (allReminders s) (JStr rid) = Some d"
    and "status d = Taken"
  shows "fst (post_taken rid s) = Reply 200 (MarkedTaken rid Taken (Some (clock s))) \<and>
     jsmap_get (allReminders (snd (post_taken rid s))) (JStr rid)
       = Some (d\<lparr>takenAt := Some (clock s)\<rparr>) \<and>
     status_of (snd (post_taken rid s)) (JStr rid) = Some Taken"
  using assms by (simp add: post_taken_found jsmap_get_set status_of_def)

theorem markTaken_again_overwrites_takenAt_witness:
  "fst (post_taken ''r1''
     \<lparr>clock = 7000,
      allReminders = [(JStr ''r1'', (new_reminder (request ''r1'' ''+15551234567'') 0)
                        \<lparr>status := Taken, takenAt := Some 5000\<rparr>)],
      activeReminders = [], timers = [], pending = [], awaiting = [], attempts = []\<rparr>)
   = Reply 200 (MarkedTaken ''r1'' Taken (Some 7000))"
  using markTaken_again_overwrites_takenAt [of "''r1''"
     "\<lparr>clock = 7000,
      allReminders = [(JStr ''r1'', (new_reminder (request ''r1'' ''+15551234567'') 0)
                        \<lparr>status := Taken, takenAt := Some 5000\<rparr>)],
      activeReminders = [], timers = [], pending = [], awaiting = [], attempts = []\<rparr>"
     "(new_reminder (request ''r1'' ''+15551234567'') 0)
        \<lparr>status := Taken, takenAt := Some 5000\<rparr>"]
  by (simp add: jsmap_get_def)

subsection \<open>C4: taken never reverts to active\<close>

text \<open>
  C4 says that once the status of a record is taken it is active in no later state, for every
  sequence of the public operations. POST /api/reminders stores a new active record under
  the id whatever was there (lines 260-266): after create, taken, create, the record is
  active again.
\<close>

theorem create_after_taken_reverts_to_active:
  "status_of (run with_client (init 0)
      [PostReminders 0 (request ''r1'' ''+15551234567''), PostTaken 5000 ''r1''])
      (JStr ''r1'') = Some Taken \<and>
   status_of (run with_client (init 0)
      [PostReminders 0 (request ''r1'' ''+15551234567''), PostTaken 5000 ''r1'',
       PostReminders 1000 (request ''r1'' ''+15551234567'')])
      (JStr ''r1'') = Some Active"
  by (simp add: run_simps status_of_def)

text \<open>
  C4 as amended: once the status of the record of an id is taken, it stays taken through
  every sequence of steps (markTaken, listReminders, timers firing, sends settling, and
  createReminder for other ids) in which no createReminder carries that id.
\<close>

theorem taken_stays_taken_without_create:
  "status_of s k = Some Taken \<Longrightarrow> list_all (\<lambda>ev. \<not> creates k ev) evs \<Longrightarrow>
   status_of (run e s evs) k = Some Taken"
proof (induction evs arbitrary: s)
  case Nil
  then show ?case by (simp add: run_Nil)
next
  case (Cons ev evs)
  from Cons.prems have "status_of (exec e s ev) k = Some Taken"
    by (simp add: taken_kept_exec)
  with Cons show ?case by (simp add: run_Cons)
qed

theorem taken_stays_taken_without_create_witness:
  "status_of (run with_client
      (run with_client (init 0)
         [PostReminders 0 (request ''r1'' ''+15551234567''), PostTaken 5000 ''r1''])
      [GetReminders 10, PostTaken 10 ''r1'', TimerFires 20000 0,
       PostReminders 5 (request ''r2'' ''+15551234567'')])
      (JStr ''r1'') = Some Taken"
proof -
  have taken: "status_of (run with_client (init 0)
      [PostReminders 0 (request ''r1'' ''+15551234567''), PostTaken 5000 ''r1''])
      (JStr ''r1'') = Some Taken"
    by (simp add: run_simps status_of_def)
  have others: "list_all (\<lambda>ev. \<not> creates (JStr ''r1'') ev)
      [GetReminders 10, PostTaken 10 ''r1'', TimerFires 20000 0,
       PostReminders 5 (request ''r2'' ''+15551234567'')]"
    by (simp add: request_def)
  show ?thesis
    by (rule taken_stays_taken_without_create [OF taken others])
qed

subsection \<open>C5: a phone number without the plus sign\<close>

text \<open>
  C5: when the id is not empty and \<^verbatim>\<open>guardianPhone\<close> is a string that does not start with
  \<^verbatim>\<open>+\<close>, POST /api/reminders answers 400 (invalid phone number format); the record has been
  written to \<^verbatim>\<open>allReminders\<close> with status active and is there after the failure; and the
  call sets no timer and registers none.
\<close>

theorem invalid_phone_record_written:
  assumes "truthy (reqReminderId b)"
    and "reqGuardianPhone b = JStr p"
    and "take 1 p \<noteq> ''+''"
  shows "fst (post_reminders e b s) = Reply 400 InvalidPhoneFormat \<and>
    jsmap_get (allReminders (snd (post_reminders e b s))) (reqReminderId b)
      = Some (new_reminder b (clock s)) \<and>
    status_of (snd (post_reminders e b s)) (reqReminderId b) = Some Active \<and>
    timers (snd (post_reminders e b s)) = timers s \<and>
    pending (snd (post_reminders e b s)) = pending s \<and>
    activeReminders (snd (post_reminders e b s)) = activeReminders s"
proof -
  have "startsWith (reqGuardianPhone b) ''+'' = Inr False"
    using assms by simp
  then show ?thesis
    using assms(1)
    by (simp add: post_reminders_invalid jsmap_get_set new_reminder_def status_of_def)
qed

theorem invalid_phone_record_written_witness:
  "fst (post_reminders with_client (request ''r2'' ''15551234567'') (init 0))
     = Reply 400 InvalidPhoneFormat \<and>
   status_of (snd (post_reminders with_client (request ''r2'' ''15551234567'') (init 0)))
     (JStr ''r2'') = Some Active \<and>
   pending (snd (post_reminders with_client (request ''r2'' ''15551234567'') (init 0))) = []"
  using invalid_phone_record_written
    [of "request ''r2'' ''15551234567''" "''15551234567''" with_client "init 0"]
  by (simp add: request_def init_def)

subsection \<open>C9: no phone number at all\<close>

text \<open>
  C9: when the id is not empty and the body has no \<^verbatim>\<open>guardianPhone\<close>, POST /api/reminders
  neither answers 400 nor completes: \<^verbatim>\<open>guardianPhone.startsWith\<close> throws a TypeError, and
  by then the record has been written to \<^verbatim>\<open>allReminders\<close> with status active.
\<close>

theorem missing_phone_throws_after_write:
  assumes "truthy (reqReminderId b)"
    and "reqGuardianPhone b = JUndefined"
  shows "fst (post_reminders e b s) = Uncaught TypeError \<and>
    jsmap_get (allReminders (snd (post_reminders e b s))) (reqReminderId b)
      = Some (new_reminder b (clock s)) \<and>
    status_of (snd (post_reminders e b s)) (reqReminderId b) = Some Active"
proof -
  have "startsWith (reqGuardianPhone b) ''+'' = Inl TypeError"
    using assms by simp
  then show ?thesis
    using assms(1)
    by (simp add: post_reminders_throws jsmap_get_set new_reminder_def status_of_def)
qed

theorem missing_phone_throws_after_write_witness:
  "fst (post_reminders with_client (request_no_phone ''r3'') (init 0)) = Uncaught TypeError \<and>
   status_of (snd (post_reminders with_client (request_no_phone ''r3'') (init 0)))
     (JStr ''r3'') = Some Active"
  using missing_phone_throws_after_write [of "request_no_phone ''r3''" with_client "init 0"]
  by (simp add: request_no_phone_def)

subsection \<open>C10: firing leaves the Store alone\<close>

text \<open>
  C10: the callback of a timer writes nothing to \<^verbatim>\<open>allReminders\<close>, neither when it starts
  nor when the send has settled (with or without success), so GET /api/reminders answers
  after the firing what it answered before: the record still has status active.
\<close>

theorem firing_leaves_store_unchanged:
  "allReminders (exec e s (TimerFires dt h)) = allReminders s \<and>
   allReminders (exec e s (SmsSettles dt h ok)) = allReminders s \<and>
   allReminders (callback e h s) = allReminders s \<and>
   fst (get_reminders (exec e s (TimerFires dt h))) = fst (get_reminders s) \<and>
   fst (get_reminders (exec e s (SmsSettles dt h ok))) = fst (get_reminders s)"
  by (simp add: allReminders_fire allReminders_settle allReminders_callback tick_fields
        get_reminders_def)

subsection \<open>C7: a registered id has an active record\<close>

text \<open>
  C7: in every state the handlers, the timers and the settled sends can reach from the start
  of the process, every id that is a key of \<^verbatim>\<open>activeReminders\<close> is a key of
  \<^verbatim>\<open>allReminders\<close> whose record has status active.
\<close>

theorem armed_ids_active_in_store:
  "jsmap_has (activeReminders (run e (init t) evs)) k \<Longrightarrow>
   status_of (run e (init t) evs) k = Some Active"
  using armed_active_run [OF armed_active_init, of e t evs]
  by (simp add: armed_active_def)

theorem armed_ids_active_in_store_witness:
  "jsmap_has (activeReminders (run with_client (init 0)
      [PostReminders 0 (request ''r1'' ''+15551234567''),
       PostReminders 10 (request ''r2'' ''+15551234567''), PostTaken 5000 ''r1'']))
      (JStr ''r2'') \<and>
   status_of (run with_client (init 0)
      [PostReminders 0 (request ''r1'' ''+15551234567''),
       PostReminders 10 (request ''r2'' ''+15551234567''), PostTaken 5000 ''r1''])
      (JStr ''r2'') = Some Active"
  using armed_ids_active_in_store [of with_client 0
      "[PostReminders 0 (request ''r1'' ''+15551234567''),
        PostReminders 10 (request ''r2'' ''+15551234567''), PostTaken 5000 ''r1'']"
      "JStr ''r2''"]
  by (simp add: run_simps jsmap_has_def)

subsection \<open>C8: the listing\<close>

lemma allReminders_post_reminders:
  "allReminders (snd (post_reminders e b s)) =
     (if truthy (reqReminderId b)
      then jsmap_set (allReminders s) (reqReminderId b) (new_reminder b (clock s))
      else allReminders s)"
  by (rule post_reminders_cases[where b = b])
     (simp_all add: post_reminders_falsy post_reminders_throws post_reminders_invalid
        post_reminders_unconvertible post_reminders_ok)

lemma allReminders_post_taken:
  "allReminders (snd (post_taken rid s)) =
     (case jsmap_get (allReminders s) (JStr rid) of
        None \<Rightarrow> allReminders s
      | Some d \<Rightarrow>
          if rid = [] then allReminders s
          else jsmap_set (allReminders s) (JStr rid) (d\<lparr>status := Taken, takenAt := Some (clock s)\<rparr>))"
  by (rule post_taken_cases[where rid = rid and s = s])
     (auto simp add: post_taken_empty post_taken_missing post_taken_found split: option.splits)

lemma keys_exec: "prefix (map fst (allReminders s)) (map fst (allReminders (exec e s ev)))"
  by (cases ev)
     (auto simp: allReminders_post_reminders allReminders_post_taken allReminders_fire
        allReminders_settle tick_fields get_reminders_def keys_jsmap_set split: option.splits)

lemma keys_run: "prefix (map fst (allReminders s)) (map fst (allReminders (run e s evs)))"
proof (induction evs arbitrary: s)
  case Nil
  show ?case by (simp add: run_Nil)
next
  case (Cons ev evs)
  have "prefix (map fst (allReminders s)) (map fst (allReminders (exec e s ev)))"
    by (rule keys_exec)
  also have "prefix \<dots> (map fst (allReminders (run e (exec e s ev) evs)))"
    by (rule Cons.IH)
  finally show ?case by (simp add: run_Cons)
qed

lemma jsmap_set_append:
  "jsmap_get m k = None \<Longrightarrow> jsmap_set (m @ m') k v = m @ jsmap_set m' k v"
  by (induction m) (auto simp: jsmap_get_def split: if_splits)

lemma jsmap_get_append:
  "jsmap_get m k = None \<Longrightarrow> jsmap_get (m @ m') k = jsmap_get m' k"
  by (simp add: jsmap_get_def map_add_def split: option.splits)

lemma clock_post_reminders: "clock (snd (post_reminders e b s)) = clock s"
  by (rule post_reminders_cases[where b = b])
     (simp_all add: post_reminders_falsy post_reminders_throws post_reminders_invalid
        post_reminders_unconvertible post_reminders_ok)

lemma clock_post_taken: "clock (snd (post_taken rid s)) = clock s"
  by (rule post_taken_cases[where rid = rid and s = s])
     (simp_all add: post_taken_empty post_taken_missing post_taken_found)

lemma exec_create_new:
  "truthy (reqReminderId b) \<Longrightarrow> jsmap_get (allReminders s) (reqReminderId b) = None \<Longrightarrow>
   allReminders (exec e s (PostReminders dt b)) =
     allReminders s @ [(reqReminderId b, new_reminder b (clock s + dt))]"
  by (simp add: allReminders_post_reminders tick_fields jsmap_set_absent)

lemma exec_taken_present:
  "rid \<noteq> [] \<Longrightarrow> jsmap_get (allReminders s) (JStr rid) = Some d \<Longrightarrow>
   allReminders (exec e s (PostTaken dt rid)) =
     jsmap_set (allReminders s) (JStr rid) (d\<lparr>status := Taken, takenAt := Some (clock s + dt)\<rparr>)"
  by (simp add: allReminders_post_taken tick_fields)

text \<open>
  C8: GET /api/reminders answers with the whole of \<^verbatim>\<open>allReminders\<close>, in the order in which
  the ids were first stored. After an id \<open>a\<close> and then an id \<open>b\<close> are created, neither known
  before, and \<open>a\<close> is marked taken, the listing is the former one followed by \<open>a\<close> with
  status taken and \<open>b\<close> with status active. And no step ever removes or moves a key: the
  keys before a run are the first keys after it, in the same order.
\<close>

theorem listing_keeps_records_in_creation_order:
  assumes "a \<noteq> []" and "b \<noteq> []" and "a \<noteq> b"
    and "jsmap_get (allReminders s) (JStr a) = None"
    and "jsmap_get (allReminders s) (JStr b) = None"
    and "reqReminderId ba = JStr a" and "reqReminderId bb = JStr b"
  shows "fst (get_reminders (run e s [PostReminders d1 ba, PostReminders d2 bb, PostTaken d3 a]))
    = Reply 200 (Rows (map to_row (allReminders s) @
        [to_row (JStr a, (new_reminder ba (clock s + d1))
                   \<lparr>status := Taken, takenAt := Some (clock s + d1 + d2 + d3)\<rparr>),
         to_row (JStr b, new_reminder bb (clock s + d1 + d2))]))
    \<and> prefix (map fst (allReminders s0)) (map fst (allReminders (run e s0 evs)))"
proof -
  define s1 where "s1 = exec e s (PostReminders d1 ba)"
  define s2 where "s2 = exec e s1 (PostReminders d2 bb)"
  define s3 where "s3 = exec e s2 (PostTaken d3 a)"
  have r1: "allReminders s1 = allReminders s @ [(JStr a, new_reminder ba (clock s + d1))]"
    unfolding s1_def using assms exec_create_new[of ba s e d1] by simp
  have c1: "clock s1 = clock s + d1"
    unfolding s1_def by (simp add: clock_post_reminders tick_fields)
  have "jsmap_get (allReminders s1) (JStr b) = None"
    using assms by (simp add: r1 jsmap_get_append) (simp add: jsmap_get_def)
  then have r2: "allReminders s2 = allReminders s @
      [(JStr a, new_reminder ba (clock s + d1)), (JStr b, new_reminder bb (clock s + d1 + d2))]"
    unfolding s2_def using assms exec_create_new[of bb s1 e d2] by (simp add: r1 c1)
  have c2: "clock s2 = clock s + d1 + d2"
    unfolding s2_def by (simp add: clock_post_reminders tick_fields c1)
  have "jsmap_get (allReminders s2) (JStr a) = Some (new_reminder ba (clock s + d1))"
    using assms by (simp add: r2 jsmap_get_append) (simp add: jsmap_get_def)
  then have "allReminders s3 = jsmap_set (allReminders s2) (JStr a)
      ((new_reminder ba (clock s + d1))\<lparr>status := Taken, takenAt := Some (clock s2 + d3)\<rparr>)"
    unfolding s3_def using assms exec_taken_present[of a s2 _ e d3] by simp
  then have r3: "allReminders s3 = allReminders s @
      [(JStr a, (new_reminder ba (clock s + d1))
                   \<lparr>status := Taken, takenAt := Some (clock s + d1 + d2 + d3)\<rparr>),
       (JStr b, new_reminder bb (clock s + d1 + d2))]"
    using assms by (simp add: r2 c2 jsmap_set_append)
  have "run e s [PostReminders d1 ba, PostReminders d2 bb, PostTaken d3 a] = s3"
    by (simp add: run_def s3_def s2_def s1_def)
  then show ?thesis
    by (simp add: get_reminders_def r3 keys_run)
qed

theorem listing_keeps_records_in_creation_order_witness:
  "fst (get_reminders (run with_client (init 0)
     [PostReminders 0 (request ''a'' ''+15551234567''),
      PostReminders 1000 (request ''b'' ''+15551234567''), PostTaken 5000 ''a'']))
   = Reply 200 (Rows
      [\<lparr>rowId = JStr ''a'', rowMedicineName = JStr ''aspirin'',
        rowGuardianPhone = JStr ''+15551234567'', rowTime = JStr ''08:00'',
        rowStatus = Taken, rowCreatedAt = 0, rowTakenAt = Some 6000\<rparr>,
       \<lparr>rowId = JStr ''b'', rowMedicineName = JStr ''aspirin'',
        rowGuardianPhone = JStr ''+15551234567'', rowTime = JStr ''08:00'',
        rowStatus = Active, rowCreatedAt = 1000, rowTakenAt = None\<rparr>])"
proof -
  have absent: "jsmap_get (allReminders (init 0)) (JStr ''a'') = None"
    "jsmap_get (allReminders (init 0)) (JStr ''b'') = None"
    by (simp_all add: init_def jsmap_get_def)
  have ids: "reqReminderId (request ''a'' ''+15551234567'') = JStr ''a''"
    "reqReminderId (request ''b'' ''+15551234567'') = JStr ''b''"
    by (simp_all add: request_def)
  have "''a'' \<noteq> []" "''b'' \<noteq> []" "''a'' \<noteq> ''b''"
    by simp_all
  from listing_keeps_records_in_creation_order
    [OF this absent ids, of with_client 0 1000 5000, THEN conjunct1]
  show ?thesis
    by (simp add: init_def to_row_def new_reminder_def request_def)
qed

subsection \<open>The timers: one attempt for each flag that is set\<close>

lemma attempts_by_append:
  "attempts (s'::state) = attempts s @ [(h', a)] \<Longrightarrow>
   attempts_by h s' = attempts_by h s @ (if h' = h then [(h', a)] else [])"
  by (simp add: attempts_by_def)

lemma attempts_by_cong: "attempts (s'::state) = attempts s \<Longrightarrow> attempts_by h s' = attempts_by h s"
  by (simp add: attempts_by_def)

lemma timers_ok_tick: "timers_ok (tick dt s) = timers_ok s"
  by (simp add: timers_ok_def tick_fields attempts_by_def)

lemma timers_ok_post_reminders:
  assumes "timers_ok s"
  shows "timers_ok (snd (post_reminders e b s))"
proof (rule post_reminders_cases[where b = b])
  assume "\<not> truthy (reqReminderId b)"
  with assms show ?thesis by (simp add: post_reminders_falsy)
next
  fix err assume "truthy (reqReminderId b)" "startsWith (reqGuardianPhone b) ''+'' = Inl err"
  with assms show ?thesis by (simp add: post_reminders_throws timers_ok_def attempts_by_def)
next
  assume "truthy (reqReminderId b)" "startsWith (reqGuardianPhone b) ''+'' = Inr False"
  with assms show ?thesis by (simp add: post_reminders_invalid timers_ok_def attempts_by_def)
next
  assume "truthy (reqReminderId b)" "startsWith (reqGuardianPhone b) ''+'' = Inr True"
    "\<not> converts (reqReminderId b)"
  with assms show ?thesis
    by (auto simp add: post_reminders_unconvertible timers_ok_def attempts_by_def
          split: option.splits)
next
  assume t: "truthy (reqReminderId b)" "startsWith (reqGuardianPhone b) ''+'' = Inr True"
    "converts (reqReminderId b)"
  let ?s' = "snd (post_reminders e b s)"
  let ?n = "length (timers s)"
  have tm: "timers ?s' = timers s @ [new_timerRef e b (clock s)]"
    and at: "attempts ?s' = attempts s"
    and pe: "set (pending ?s') \<subseteq> insert ?n (set (pending s))"
    using t by (auto simp add: post_reminders_ok split: option.splits)
  have none: "attempts_by ?n s = []"
    using assms by (auto simp: timers_ok_def attempts_by_def filter_empty_conv)
  show ?thesis
    unfolding timers_ok_def
  proof (intro conjI ballI allI impI)
    fix h assume "h \<in> set (pending ?s')"
    with pe have "h = ?n \<or> h \<in> set (pending s)" by auto
    then show "h < length (timers ?s')"
      using assms by (auto simp: tm timers_ok_def)
    from \<open>h = ?n \<or> h \<in> set (pending s)\<close> show "\<not> triggered (timers ?s' ! h)"
      using assms by (auto simp: tm timers_ok_def nth_append new_timerRef_def)
  next
    fix p assume "p \<in> set (attempts ?s')"
    then show "fst p < length (timers ?s')"
      using assms by (auto simp: tm at timers_ok_def)
  next
    fix h assume "h < length (timers ?s')"
    then have "h < ?n \<or> h = ?n" by (auto simp: tm)
    then show "length (attempts_by h ?s') = (if triggered (timers ?s' ! h) then 1 else 0)"
    proof
      assume "h < ?n"
      then show ?thesis
        using assms by (simp add: tm nth_append attempts_by_cong[OF at] timers_ok_def)
    next
      assume "h = ?n"
      then show ?thesis
        using none by (simp add: tm attempts_by_cong[OF at] new_timerRef_def)
    qed
  qed
qed

lemma timers_ok_post_taken:
  assumes "timers_ok s"
  shows "timers_ok (snd (post_taken rid s))"
proof (rule post_taken_cases[where rid = rid and s = s])
  assume "rid = []"
  with assms show ?thesis by (simp add: post_taken_empty)
next
  assume "rid \<noteq> []" "jsmap_get (allReminders s) (JStr rid) = None"
  with assms show ?thesis by (simp add: post_taken_missing)
next
  fix d assume "rid \<noteq> []" "jsmap_get (allReminders s) (JStr rid) = Some d"
  with assms show ?thesis
    by (auto simp add: post_taken_found timers_ok_def attempts_by_def split: option.splits)
qed

lemma callback_fields:
  assumes "\<not> triggered (timers s ! h)"
  shows "timers (callback e h s) = (timers s)[h := (timers s ! h)\<lparr>triggered := True\<rparr>]"
    and "pending (callback e h s) = pending s"
    and "\<exists>a. attempts (callback e h s) = attempts s @ [(h, a)]"
  using assms by (auto simp add: callback_def finally_block_def Let_def)

lemma timers_ok_fire:
  assumes "timers_ok s"
  shows "timers_ok (fire e h s)"
proof (cases "h \<in> set (pending s) \<and> h < length (timers s) \<and> due (timers s ! h) \<le> clock s")
  case False
  then have "fire e h s = s" unfolding fire_def by (rule if_not_P)
  with assms show ?thesis by simp
next
  case True
  let ?s0 = "s\<lparr>pending := removeAll h (pending s)\<rparr>"
  let ?s' = "callback e h ?s0"
  from True assms have nt: "\<not> triggered (timers ?s0 ! h)"
    by (simp add: timers_ok_def)
  have eq: "fire e h s = ?s'" using True by (simp add: fire_def)
  have tm: "timers ?s' = (timers s)[h := (timers s ! h)\<lparr>triggered := True\<rparr>]"
    and pe: "pending ?s' = removeAll h (pending s)"
    using callback_fields(1,2)[OF nt, of e] by simp_all
  obtain a where at: "attempts ?s' = attempts s @ [(h, a)]"
    using callback_fields(3)[OF nt, of e] by auto
  have ab: "\<And>h'. attempts_by h' ?s' = attempts_by h' s @ (if h = h' then [(h, a)] else [])"
    using at by (simp add: attempts_by_def)
  show ?thesis
    unfolding eq timers_ok_def
  proof (intro conjI ballI allI impI)
    fix h' assume "h' \<in> set (pending ?s')"
    then have "h' \<in> set (pending s)" "h' \<noteq> h" by (auto simp: pe)
    then show "h' < length (timers ?s')" "\<not> triggered (timers ?s' ! h')"
      using assms by (auto simp: tm timers_ok_def)
  next
    fix p assume "p \<in> set (attempts ?s')"
    then show "fst p < length (timers ?s')"
      using assms True by (auto simp: tm at timers_ok_def)
  next
    fix h' assume "h' < length (timers ?s')"
    then have "h' < length (timers s)" by (simp add: tm)
    then show "length (attempts_by h' ?s') = (if triggered (timers ?s' ! h') then 1 else 0)"
      using assms True by (cases "h' = h") (auto simp: tm ab timers_ok_def)
  qed
qed

lemma timers_ok_settle: "timers_ok s \<Longrightarrow> timers_ok (settle h ok s)"
  by (simp add: settle_def resume_eq timers_ok_def attempts_by_def)

lemma timers_ok_exec: "timers_ok s \<Longrightarrow> timers_ok (exec e s ev)"
  by (cases ev)
     (simp_all add: timers_ok_post_reminders timers_ok_post_taken timers_ok_fire
        timers_ok_settle timers_ok_tick get_reminders_def)

lemma timers_ok_run: "timers_ok s \<Longrightarrow> timers_ok (run e s evs)"
  by (induction evs arbitrary: s) (simp_all add: run_Nil run_Cons timers_ok_exec)

lemma timers_ok_init: "timers_ok (init t)"
  by (simp add: timers_ok_def init_def)


lemma timers_post_reminders:
  "timers (snd (post_reminders e b s)) = timers s \<or>
   timers (snd (post_reminders e b s)) = timers s @ [new_timerRef e b (clock s)]"
  by (rule post_reminders_cases[where b = b])
     (simp_all add: post_reminders_falsy post_reminders_throws post_reminders_invalid
        post_reminders_unconvertible post_reminders_ok)

lemma timers_post_taken: "timers (snd (post_taken rid s)) = timers s"
  by (rule post_taken_cases[where rid = rid and s = s])
     (simp_all add: post_taken_empty post_taken_missing post_taken_found)

lemma attempts_post_reminders: "attempts (snd (post_reminders e b s)) = attempts s"
  by (rule post_reminders_cases[where b = b])
     (simp_all add: post_reminders_falsy post_reminders_throws post_reminders_invalid
        post_reminders_unconvertible post_reminders_ok)

lemma attempts_post_taken: "attempts (snd (post_taken rid s)) = attempts s"
  by (rule post_taken_cases[where rid = rid and s = s])
     (simp_all add: post_taken_empty post_taken_missing post_taken_found)

lemma timers_callback:
  "timers (callback e h s) = timers s \<or>
   timers (callback e h s) = (timers s)[h := (timers s ! h)\<lparr>triggered := True\<rparr>]"
  by (simp add: callback_def finally_block_def Let_def)

lemma flag_stays_set:
  assumes "h < length (timers s)" and "triggered (timers s ! h)"
  shows "h < length (timers (exec e s ev)) \<and> triggered (timers (exec e s ev) ! h)"
proof (cases ev)
  case (PostReminders dt b)
  with assms timers_post_reminders[of e b "tick dt s"] show ?thesis
    by (auto simp: tick_fields nth_append)
next
  case (PostTaken dt rid)
  with assms show ?thesis by (simp add: timers_post_taken tick_fields)
next
  case (GetReminders dt)
  with assms show ?thesis by (simp add: get_reminders_def tick_fields)
next
  case (TimerFires dt h')
  with assms timers_callback[of e h' "(tick dt s)\<lparr>pending := removeAll h' (pending (tick dt s))\<rparr>"]
  show ?thesis
    by (auto simp: fire_def tick_fields nth_list_update)
next
  case (SmsSettles dt h' ok)
  with assms show ?thesis by (simp add: settle_def resume_eq tick_fields)
qed

lemma attempts_by_stays:
  assumes "timers_ok s" and "h < length (timers s)" and "triggered (timers s ! h)"
  shows "attempts_by h (exec e s ev) = attempts_by h s"
proof (cases ev)
  case (PostReminders dt b)
  then show ?thesis by (simp add: attempts_by_def attempts_post_reminders tick_fields)
next
  case (PostTaken dt rid)
  then show ?thesis by (simp add: attempts_by_def attempts_post_taken tick_fields)
next
  case (GetReminders dt)
  then show ?thesis by (simp add: attempts_by_def get_reminders_def tick_fields)
next
  case (TimerFires dt h')
  show ?thesis
  proof (cases "h' \<in> set (pending s) \<and> h' < length (timers s) \<and> due (timers s ! h') \<le> clock s + dt")
    case False
    then have "fire e h' (tick dt s) = tick dt s"
      unfolding fire_def tick_fields by (rule if_not_P)
    then show ?thesis by (simp add: TimerFires attempts_by_def tick_fields)
  next
    case True
    with assms have ne: "h' \<noteq> h" and nt: "\<not> triggered (timers s ! h')"
      by (auto simp: timers_ok_def)
    let ?s0 = "(tick dt s)\<lparr>pending := removeAll h' (pending (tick dt s))\<rparr>"
    from nt have "\<not> triggered (timers ?s0 ! h')" by (simp add: tick_fields)
    from callback_fields(3)[OF this, of e] obtain a
      where "attempts (callback e h' ?s0) = attempts s @ [(h', a)]"
      by (auto simp: tick_fields)
    moreover have "fire e h' (tick dt s) = callback e h' ?s0"
      using True by (simp add: fire_def tick_fields)
    ultimately show ?thesis using ne by (simp add: TimerFires attempts_by_def)
  qed
next
  case (SmsSettles dt h' ok)
  then show ?thesis by (simp add: attempts_by_def settle_def resume_eq tick_fields)
qed

lemma fired_for_good:
  assumes "timers_ok s" and "h < length (timers s)" and "triggered (timers s ! h)"
  shows "h < length (timers (run e s evs)) \<and> triggered (timers (run e s evs) ! h) \<and>
         attempts_by h (run e s evs) = attempts_by h s"
  using assms
proof (induction evs arbitrary: s)
  case Nil
  then show ?case by (simp add: run_Nil)
next
  case (Cons ev evs)
  have "timers_ok (exec e s ev)" using Cons.prems(1) by (rule timers_ok_exec)
  moreover have "h < length (timers (exec e s ev)) \<and> triggered (timers (exec e s ev) ! h)"
    using Cons.prems(2,3) by (rule flag_stays_set)
  moreover have "attempts_by h (exec e s ev) = attempts_by h s"
    using Cons.prems by (rule attempts_by_stays)
  ultimately show ?case using Cons.IH[of "exec e s ev"] by (simp add: run_Cons)
qed

subsection \<open>C1: one attempt for each timer that fires\<close>

text \<open>
  C1: take any state the process can reach and a timer the event loop still holds there (it
  was set and not cleared). No attempt has been made for it. When its delay has passed and
  its callback runs, the callback finds the flag unset, sets it, and makes exactly one
  attempt, that is, runs the \<^verbatim>\<open>try\<close> block once. The attempt ends in one of three ways: in
  a process without a Twilio client, with the error thrown at the head of the block; with a
  client, when the medicine or the time of that timer does not convert to a string, with
  the TypeError thrown while the body of the message is built, before any call; and
  otherwise with the call of \<^verbatim>\<open>messages.create\<close> for the phone, medicine and time of that
  timer. In each case the flag is set, so running the callback again changes nothing, then
  and in every later state, and the attempts of that timer stay that one for ever.
\<close>

theorem armed_timer_fires_exactly_once:
  assumes s: "s = run e (init t) evs"
    and armed: "h \<in> set (pending s)"
    and elapsed: "due (timers s ! h) \<le> clock s + dt"
    and s': "s' = exec e s (TimerFires dt h)"
  shows "attempts_by h s = [] \<and>
    attempts_by h s' =
      [(h, if \<not> twilioClient e then NotInitialized
           else if \<not> (converts (forMedicineName (timers s ! h)) \<and>
                       converts (forTime (timers s ! h)))
           then BodyThrew
           else Create \<lparr>smsTo = forGuardianPhone (timers s ! h),
                  smsMedicineName = forMedicineName (timers s ! h),
                  smsTime = forTime (timers s ! h)\<rparr>)] \<and>
    triggered (timers s' ! h) \<and>
    callback e h s' = s' \<and>
    (\<forall>later. attempts_by h (run e s' later) = attempts_by h s' \<and>
              callback e h (run e s' later) = run e s' later)"
proof -
  let ?a = "if \<not> twilioClient e then NotInitialized
           else if \<not> (converts (forMedicineName (timers s ! h)) \<and>
                       converts (forTime (timers s ! h)))
           then BodyThrew
           else Create \<lparr>smsTo = forGuardianPhone (timers s ! h),
                  smsMedicineName = forMedicineName (timers s ! h),
                  smsTime = forTime (timers s ! h)\<rparr>"
  have ok: "timers_ok s" unfolding s by (rule timers_ok_run[OF timers_ok_init])
  from ok armed have lt: "h < length (timers s)" and nt: "\<not> triggered (timers s ! h)"
    by (auto simp: timers_ok_def)
  from ok lt nt have "length (attempts_by h s) = 0"
    by (simp add: timers_ok_def)
  then have none: "attempts_by h s = []"
    by simp
  let ?s0 = "(tick dt s)\<lparr>pending := removeAll h (pending (tick dt s))\<rparr>"
  have fire: "s' = callback e h ?s0"
    using armed lt elapsed by (simp add: s' fire_def tick_fields)
  have nt0: "\<not> triggered (timers ?s0 ! h)" using nt by (simp add: tick_fields)
  have at: "attempts s' = attempts s @ [(h, ?a)]"
    unfolding fire using nt0
    by (simp add: callback_def finally_block_def Let_def tick_fields)
  have tm: "timers s' = (timers s)[h := (timers s ! h)\<lparr>triggered := True\<rparr>]"
    unfolding fire using callback_fields(1)[OF nt0, of e] by (simp add: tick_fields)
  have one: "attempts_by h s' = [(h, ?a)]"
    using none by (simp add: attempts_by_def at)
  have lt': "h < length (timers s')" and set: "triggered (timers s' ! h)"
    using lt by (simp_all add: tm)
  have ok': "timers_ok s'" unfolding s' using ok by (rule timers_ok_exec)
  have again: "callback e h s' = s'" using set by (rule callback_triggered)
  have "attempts_by h (run e s' later) = attempts_by h s' \<and>
        callback e h (run e s' later) = run e s' later" for later
    using fired_for_good[OF ok' lt' set, of e later] by (simp add: callback_triggered)
  with none one set again show ?thesis by blast
qed

theorem armed_timer_fires_exactly_once_witness:
  "attempts_by 0 (run with_client (init 0)
      [PostReminders 0 (request ''r1'' ''+15551234567'')]) = [] \<and>
   attempts_by 0 (exec with_client
      (run with_client (init 0) [PostReminders 0 (request ''r1'' ''+15551234567'')])
      (TimerFires 10000 0)) =
     [(0, Create \<lparr>smsTo = JStr ''+15551234567'', smsMedicineName = JStr ''aspirin'',
                  smsTime = JStr ''08:00''\<rparr>)]"
proof -
  have st: "run with_client (init 0) [PostReminders 0 (request ''r1'' ''+15551234567'')] =
     \<lparr>clock = 0,
      allReminders = [(JStr ''r1'', new_reminder (request ''r1'' ''+15551234567'') 0)],
      activeReminders =
        [(JStr ''r1'', new_armed with_client (request ''r1'' ''+15551234567'') 0 0)],
      timers = [new_timerRef with_client (request ''r1'' ''+15551234567'') 0],
      pending = [0], awaiting = [], attempts = []\<rparr>"
    by (simp add: run_simps)
  have armed: "0 \<in> set (pending (run with_client (init 0)
      [PostReminders 0 (request ''r1'' ''+15551234567'')]))"
    by (simp add: st)
  have elapsed: "due (timers (run with_client (init 0)
        [PostReminders 0 (request ''r1'' ''+15551234567'')]) ! 0)
      \<le> clock (run with_client (init 0)
        [PostReminders 0 (request ''r1'' ''+15551234567'')]) + 10000"
    unfolding st by (simp add: new_timerRef_def TIMER_DURATION_def with_client_def)
  from armed_timer_fires_exactly_once [OF refl armed elapsed refl]
  show ?thesis
    unfolding st by (simp add: new_timerRef_def request_def with_client_def)
qed

text \<open>
  A reminder whose \<^verbatim>\<open>medicineName\<close> is \<^verbatim>\<open>{"toString": 1}\<close> is accepted and its timer set;
  when the timer fires, the one attempt ends before \<^verbatim>\<open>messages.create\<close> is called, no
  callback is left suspended, and the id is no longer registered.
\<close>

lemma odd_medicine_makes_no_call:
  "attempts (run with_client (init 0)
      [PostReminders 0 (request_odd_medicine ''r1'' ''+15551234567''), TimerFires 10000 0])
     = [(0, BodyThrew)] \<and>
   awaiting (run with_client (init 0)
      [PostReminders 0 (request_odd_medicine ''r1'' ''+15551234567''), TimerFires 10000 0])
     = [] \<and>
   activeReminders (run with_client (init 0)
      [PostReminders 0 (request_odd_medicine ''r1'' ''+15551234567''), TimerFires 10000 0])
     = []"
  by (simp add: run_simps)

text \<open>
  An id that is \<^verbatim>\<open>{"toString": 1}\<close> makes the handler throw at line 288: the record is
  written, and no timer is set or registered.
\<close>

lemma odd_id_throws_after_write:
  "post_reminders with_client
     \<lparr>reqReminderId = JObj 7 False, reqMedicineName = JStr ''aspirin'',
      reqGuardianPhone = JStr ''+15551234567'', reqTime = JStr ''08:00''\<rparr> (init 0)
   = (Uncaught TypeError,
      (init 0)\<lparr>allReminders :=
         [(JObj 7 False,
           \<lparr>medicineName = JStr ''aspirin'', guardianPhone = JStr ''+15551234567'',
            time = JStr ''08:00'', status = Active, createdAt = 0, takenAt = None\<rparr>)]\<rparr>)"
  by (simp add: post_reminders_unconvertible new_reminder_def init_def jsmap_get_def)

subsection \<open>C6: creating an id again while its alert is being sent\<close>

text \<open>
  What the two handlers do clear is the timer registered under the id in
  \<^verbatim>\<open>activeReminders\<close>.
\<close>

lemma post_reminders_clears_registered:
  assumes "truthy (reqReminderId b)" and "startsWith (reqGuardianPhone b) ''+'' = Inr True"
    and "jsmap_get (activeReminders s) (reqReminderId b) = Some a"
    and "timer a < length (timers s)"
  shows "timer a \<notin> set (pending (snd (post_reminders e b s)))"
  using assms
  by (cases "converts (reqReminderId b)")
     (simp_all add: post_reminders_ok post_reminders_unconvertible)

lemma post_taken_clears_registered:
  assumes "rid \<noteq> []" and "jsmap_get (allReminders s) (JStr rid) = Some d"
    and "jsmap_get (activeReminders s) (JStr rid) = Some a"
  shows "timer a \<notin> set (pending (snd (post_taken rid s)))"
  using assms by (simp add: post_taken_found)

text \<open>
  In a process without a Twilio client no callback ever waits for a send. There every timer
  the event loop holds is the registered one, in every state the process can reach, so an
  id has at most one timer waiting and marking it taken clears that one.
\<close>

lemma held_registered_tick: "held_registered (tick dt s) = held_registered s"
  by (simp add: held_registered_def tick_fields)

lemma held_registered_post_reminders:
  assumes "held_registered s"
  shows "held_registered (snd (post_reminders e b s))"
proof (rule post_reminders_cases[where b = b])
  assume "\<not> truthy (reqReminderId b)"
  with assms show ?thesis by (simp add: post_reminders_falsy)
next
  fix err assume "truthy (reqReminderId b)" "startsWith (reqGuardianPhone b) ''+'' = Inl err"
  with assms show ?thesis by (simp add: post_reminders_throws held_registered_def)
next
  assume "truthy (reqReminderId b)" "startsWith (reqGuardianPhone b) ''+'' = Inr False"
  with assms show ?thesis by (simp add: post_reminders_invalid held_registered_def)
next
  assume "truthy (reqReminderId b)" "startsWith (reqGuardianPhone b) ''+'' = Inr True"
    "\<not> converts (reqReminderId b)"
  with assms show ?thesis
    by (auto simp add: post_reminders_unconvertible held_registered_def distinct_removeAll
          split: option.splits)
next
  assume t: "truthy (reqReminderId b)" "startsWith (reqGuardianPhone b) ''+'' = Inr True"
    "converts (reqReminderId b)"
  show ?thesis
    using assms
    by (auto simp add: post_reminders_ok[OF t] held_registered_def jsmap_get_set nth_append
          distinct_removeAll new_armed_def new_timerRef_def split: option.splits)
qed

lemma held_registered_post_taken:
  assumes "held_registered s"
  shows "held_registered (snd (post_taken rid s))"
proof (rule post_taken_cases[where rid = rid and s = s])
  assume "rid = []"
  with assms show ?thesis by (simp add: post_taken_empty)
next
  assume "rid \<noteq> []" "jsmap_get (allReminders s) (JStr rid) = None"
  with assms show ?thesis by (simp add: post_taken_missing)
next
  fix d assume f: "rid \<noteq> []" "jsmap_get (allReminders s) (JStr rid) = Some d"
  show ?thesis
    using assms
    by (auto simp add: post_taken_found[OF f] held_registered_def jsmap_get_delete
          distinct_removeAll split: option.splits)
qed

lemma held_registered_fire:
  assumes "held_registered s" and "\<not> twilioClient e"
  shows "held_registered (fire e h s)"
proof (cases "h \<in> set (pending s) \<and> h < length (timers s) \<and> due (timers s ! h) \<le> clock s")
  case False
  then have "fire e h s = s" unfolding fire_def by (rule if_not_P)
  with assms show ?thesis by simp
next
  case True
  show ?thesis
  proof (cases "triggered (timers s ! h)")
    case True
    with \<open>h \<in> set (pending s) \<and> _\<close> assms show ?thesis
      by (auto simp add: fire_def callback_triggered held_registered_def distinct_removeAll)
  next
    case False
    with \<open>h \<in> set (pending s) \<and> _\<close> assms show ?thesis
      by (auto simp add: fire_def callback_no_client held_registered_def jsmap_get_delete
            nth_list_update distinct_removeAll)
         (metis option.inject)
  qed
qed

lemma held_registered_settle: "held_registered s \<Longrightarrow> held_registered (settle h ok s)"
  by (simp add: settle_def held_registered_def)

lemma held_registered_exec:
  "\<not> twilioClient e \<Longrightarrow> held_registered s \<Longrightarrow> held_registered (exec e s ev)"
  by (cases ev)
     (simp_all add: held_registered_post_reminders held_registered_post_taken
        held_registered_fire held_registered_settle held_registered_tick get_reminders_def)

lemma held_registered_run:
  "\<not> twilioClient e \<Longrightarrow> held_registered s \<Longrightarrow> held_registered (run e s evs)"
  by (induction evs arbitrary: s) (simp_all add: run_Nil run_Cons held_registered_exec)

lemma held_registered_init: "held_registered (init t)"
  by (simp add: held_registered_def init_def)

lemma distinct_filter_le_one:
  "distinct xs \<Longrightarrow> (\<forall>x \<in> set xs. P x \<longrightarrow> x = y) \<Longrightarrow> length (filter P xs) \<le> 1"
  by (induction xs) (auto simp: filter_empty_conv)

lemma held_registered_at_most_one:
  assumes "held_registered s"
  shows "length (pending_for k s) \<le> 1"
proof (cases "jsmap_get (activeReminders s) k")
  case None
  with assms have "pending_for k s = []"
    by (auto simp: pending_for_def held_registered_def filter_empty_conv)
  then show ?thesis by simp
next
  case (Some a)
  with assms have "\<forall>h \<in> set (pending s). forReminderId (timers s ! h) = k \<longrightarrow> h = timer a"
    by (auto simp: held_registered_def)
  with assms show ?thesis
    unfolding pending_for_def by (intro distinct_filter_le_one) (auto simp: held_registered_def)
qed

lemma without_client_at_most_one:
  "\<not> twilioClient e \<Longrightarrow> length (pending_for k (run e (init t) evs)) \<le> 1"
  by (rule held_registered_at_most_one) (rule held_registered_run[OF _ held_registered_init])

lemma held_registered_taken_clears:
  assumes "held_registered s" and "rid \<noteq> []" and "jsmap_get (allReminders s) (JStr rid) = Some d"
  shows "pending_for (JStr rid) (snd (post_taken rid s)) = []"
  using assms
  by (auto simp add: post_taken_found pending_for_def held_registered_def filter_empty_conv
        split: option.splits)

text \<open>
  C6 says that creating an id again clears the timer the id had, so that an id has at most
  one timer waiting and only the latest can fire. On this run of a process with a Twilio
  client it has two: the first timer for \<^verbatim>\<open>r1\<close> fires after 10 s and its callback waits for
  \<^verbatim>\<open>messages.create\<close>; 100 ms later \<^verbatim>\<open>r1\<close> is created again and timer 1 is set and
  registered; 200 ms later the send settles and the \<^verbatim>\<open>finally\<close> block of the first
  callback deletes the entry of \<^verbatim>\<open>r1\<close>, which by now is the entry of timer 1; \<^verbatim>\<open>r1\<close> is
  created a third time, nothing is registered under it, so nothing is cleared, and timer 2
  is set. Timers 1 and 2 are both held for \<^verbatim>\<open>r1\<close>, and both fire and make their attempt.
\<close>

theorem rearm_while_sending_leaves_two_timers:
  "pending_for (JStr ''r1'') (run with_client (init 0)
     [PostReminders 0 (request ''r1'' ''+15551234567''), TimerFires 10000 0,
      PostReminders 100 (request ''r1'' ''+15551234567''), SmsSettles 200 0 True,
      PostReminders 1000 (request ''r1'' ''+15551234567'')]) = [1, 2] \<and>
   map fst (attempts (run with_client (init 0)
     [PostReminders 0 (request ''r1'' ''+15551234567''), TimerFires 10000 0,
      PostReminders 100 (request ''r1'' ''+15551234567''), SmsSettles 200 0 True,
      PostReminders 1000 (request ''r1'' ''+15551234567''),
      TimerFires 9000 1, TimerFires 1000 2])) = [0, 1, 2]"
  by (simp add: run_simps pending_for_def)

subsection \<open>C2: marking an id taken while a timer of it is not registered\<close>

text \<open>
  C2 says that when the id is marked taken before the delay of its timer has passed, no
  alert is ever sent for it. On this run of a process with a Twilio client one is: as
  above, \<^verbatim>\<open>r1\<close> is created again while the alert of its first timer is being sent, and when
  the send settles, \<^verbatim>\<open>finally\<close> deletes the entry of timer 1. At 11300 ms \<^verbatim>\<open>r1\<close> is marked
  taken: the answer is 200, nothing is registered under \<^verbatim>\<open>r1\<close>, so no timer is cleared, and
  timer 1, due at 20100 ms, is still held. It fires at 20300 ms and calls
  \<^verbatim>\<open>messages.create\<close> for the guardian of \<^verbatim>\<open>r1\<close>, whose record is taken.
\<close>

theorem taken_after_rearm_while_sending_still_alerts:
  "fst (post_taken ''r1'' (tick 1000 (run with_client (init 0)
     [PostReminders 0 (request ''r1'' ''+15551234567''), TimerFires 10000 0,
      PostReminders 100 (request ''r1'' ''+15551234567''), SmsSettles 200 0 True])))
     = Reply 200 (MarkedTaken ''r1'' Taken (Some 11300)) \<and>
   pending_for (JStr ''r1'') (run with_client (init 0)
     [PostReminders 0 (request ''r1'' ''+15551234567''), TimerFires 10000 0,
      PostReminders 100 (request ''r1'' ''+15551234567''), SmsSettles 200 0 True,
      PostTaken 1000 ''r1'']) = [1] \<and>
   map due (timers (run with_client (init 0)
     [PostReminders 0 (request ''r1'' ''+15551234567''), TimerFires 10000 0,
      PostReminders 100 (request ''r1'' ''+15551234567''), SmsSettles 200 0 True,
      PostTaken 1000 ''r1''])) = [10000, 20100] \<and>
   status_of (run with_client (init 0)
     [PostReminders 0 (request ''r1'' ''+15551234567''), TimerFires 10000 0,
      PostReminders 100 (request ''r1'' ''+15551234567''), SmsSettles 200 0 True,
      PostTaken 1000 ''r1'', TimerFires 9000 1]) (JStr ''r1'') = Some Taken \<and>
   attempts_by 1 (run with_client (init 0)
     [PostReminders 0 (request ''r1'' ''+15551234567''), TimerFires 10000 0,
      PostReminders 100 (request ''r1'' ''+15551234567''), SmsSettles 200 0 True,
      PostTaken 1000 ''r1'', TimerFires 9000 1])
     = [(1, Create \<lparr>smsTo = JStr ''+15551234567'', smsMedicineName = JStr ''aspirin'',
                    smsTime = JStr ''08:00''\<rparr>)]"
  by (simp add: run_simps pending_for_def status_of_def attempts_by_def)

end
